theory Spec2Isabelle
  imports Complex_Main
begin

section \<open>Iterated Prisoner's Dilemma: the match simulation and scoring engine\<close>

text \<open>
  The repository holds three generations of one single-file component. The first
  (\<^verbatim>\<open>src/unnamed/part_000\<close>) has the six classic strategies with Pavlov, the adaptive
  agents with a two-probability policy, \<^verbatim>\<open>payoffFor\<close>, \<^verbatim>\<open>runIteratedMatch\<close> and
  \<^verbatim>\<open>adaptAgentAfterMatch\<close>. The later two (\<^verbatim>\<open>part_001\<close>, \<^verbatim>\<open>part_002\<close>) share one
  engine: six classic strategies with Generous Tit-for-Tat, the four learning agents
  (Q-learner, frequency analyser, pattern detector, meta-strategist), \<^verbatim>\<open>playGame\<close> and a
  scheduler that stops by itself.

  \<^verbatim>\<open>Math.random()\<close> is an explicit source of draws: a sequence \<open>rnd\<close> of numbers and a
  cursor \<open>k\<close>; every call reads \<open>rnd k\<close> and moves the cursor by one. JavaScript numbers
  are modelled as \<open>int\<close> where the program only adds small integers (payoffs, scores) and
  as \<open>real\<close> elsewhere (probabilities, averages, Q-values).
\<close>

subsection \<open>Moves and the payoff matrix\<close>

datatype move = C | D

type_synonym rng = "nat \<Rightarrow> real"

definition PD_R :: int where "PD_R = 3"
definition PD_T :: int where "PD_T = 5"
definition PD_P :: int where "PD_P = 1"
definition PD_S :: int where "PD_S = 0"

definition ITERATED_LENGTH :: nat where "ITERATED_LENGTH = 20"

text \<open>\<^verbatim>\<open>payoffFor(meMove, oppMove)\<close> of part_000, the three tests in the source's order.\<close>

definition payoffFor :: "move \<Rightarrow> move \<Rightarrow> int" where
  "payoffFor meMove oppMove =
     (if meMove = C \<and> oppMove = C then PD_R
      else if meMove = C \<and> oppMove = D then PD_S
      else if meMove = D \<and> oppMove = C then PD_T
      else PD_P)"

text \<open>
  The payoff computation written inline in \<^verbatim>\<open>playGame\<close> of part_001 and part_002: one
  chain of tests that sets \<^verbatim>\<open>payoffA\<close> and \<^verbatim>\<open>payoffB\<close> together.
\<close>

definition playGame_payoffs :: "move \<Rightarrow> move \<Rightarrow> int \<times> int" where
  "playGame_payoffs moveA moveB =
     (if moveA = C \<and> moveB = C then (PD_R, PD_R)
      else if moveA = C \<and> moveB = D then (PD_S, PD_T)
      else if moveA = D \<and> moveB = C then (PD_T, PD_S)
      else (PD_P, PD_P))"

subsection \<open>part_000: classic strategies, adaptive agents, the match runner\<close>

record round0 =
  me :: move
  opp :: move

datatype classic0 = C_ALWAYS | D_ALWAYS | TFT | RANDOM | GRIM | PAVLOV

text \<open>
  The \<^verbatim>\<open>fn\<close> fields of \<^verbatim>\<open>ClassicStrategies\<close>. Each returns its move and the cursor of the
  random source after the call; only \<^verbatim>\<open>RANDOM\<close> draws.
\<close>

fun classic_fn :: "classic0 \<Rightarrow> round0 list \<Rightarrow> rng \<Rightarrow> nat \<Rightarrow> move \<times> nat" where
  "classic_fn C_ALWAYS history rnd k = (C, k)"
| "classic_fn D_ALWAYS history rnd k = (D, k)"
| "classic_fn TFT history rnd k =
     (if length history = 0 then (C, k) else (opp (last history), k))"
| "classic_fn RANDOM history rnd k = (if rnd k < 0.5 then C else D, Suc k)"
| "classic_fn GRIM history rnd k =
     (if list_ex (\<lambda>h. opp h = D) history then (D, k) else (C, k))"
| "classic_fn PAVLOV history rnd k =
     (if length history = 0 then (C, k)
      else
        let lastr = last history;
            payoff = payoffFor (me lastr) (opp lastr)
        in if payoff = PD_R \<or> payoff = PD_T then (me lastr, k)
           else (if me lastr = C then D else C, k))"

record policy =
  p_afterC :: real
  p_afterD :: real

datatype kind0 = Classic classic0 | Adaptive policy

record agent0 =
  name0 :: string
  kind :: kind0
  score0 :: int

text \<open>\<^verbatim>\<open>adaptiveDecision(agent, history)\<close>: one draw, compared with a policy probability.\<close>

definition adaptiveDecision :: "policy \<Rightarrow> round0 list \<Rightarrow> rng \<Rightarrow> nat \<Rightarrow> move \<times> nat" where
  "adaptiveDecision pol history rnd k =
     (if length history = 0 then (if rnd k < p_afterC pol then C else D, Suc k)
      else
        let lastOpp = opp (last history);
            p = (if lastOpp = C then p_afterC pol else p_afterD pol)
        in (if rnd k < p then C else D, Suc k))"

text \<open>
  \<^verbatim>\<open>decideMove(agent, history, oppHistory)\<close>: a classic agent gets its own history, an
  adaptive agent is handed \<^verbatim>\<open>oppHistory\<close>.
\<close>

definition decideMove :: "agent0 \<Rightarrow> round0 list \<Rightarrow> round0 list \<Rightarrow> rng \<Rightarrow> nat \<Rightarrow> move \<times> nat" where
  "decideMove agent history oppHistory rnd k =
     (case kind agent of
        Classic f \<Rightarrow> classic_fn f history rnd k
      | Adaptive pol \<Rightarrow> adaptiveDecision pol oppHistory rnd k)"

text \<open>
  The object \<^verbatim>\<open>{ history, historyB, scoreA, scoreB }\<close> returned by \<^verbatim>\<open>runIteratedMatch\<close>
  (fields suffixed with 0: \<^verbatim>\<open>playGame\<close> of the later generation returns the same names).
\<close>

record outcome0 =
  history0 :: "round0 list"
  historyB0 :: "round0 list"
  scoreA0 :: int
  scoreB0 :: int

text \<open>One pass of the body of the \<^verbatim>\<open>for\<close> loop of \<^verbatim>\<open>runIteratedMatch\<close>.\<close>

definition match_round :: "agent0 \<Rightarrow> agent0 \<Rightarrow> rng \<Rightarrow> outcome0 \<times> nat \<Rightarrow> outcome0 \<times> nat" where
  "match_round A B rnd st =
     (let m = fst st;
          ra = decideMove A (history0 m) (historyB0 m) rnd (snd st);
          aMove = fst ra;
          rb = decideMove B (historyB0 m) (history0 m) rnd (snd ra);
          bMove = fst rb
      in (\<lparr>history0 = history0 m @ [\<lparr>me = aMove, opp = bMove\<rparr>],
           historyB0 = historyB0 m @ [\<lparr>me = bMove, opp = aMove\<rparr>],
           scoreA0 = scoreA0 m + payoffFor aMove bMove,
           scoreB0 = scoreB0 m + payoffFor bMove aMove\<rparr>, snd rb))"

primrec match_loop :: "nat \<Rightarrow> agent0 \<Rightarrow> agent0 \<Rightarrow> rng \<Rightarrow> outcome0 \<times> nat \<Rightarrow> outcome0 \<times> nat" where
  "match_loop 0 A B rnd st = st"
| "match_loop (Suc n) A B rnd st = match_loop n A B rnd (match_round A B rnd st)"

definition runIteratedMatch :: "agent0 \<Rightarrow> agent0 \<Rightarrow> rng \<Rightarrow> nat \<Rightarrow> outcome0 \<times> nat" where
  "runIteratedMatch A B rnd k =
     match_loop ITERATED_LENGTH A B rnd
       (\<lparr>history0 = [], historyB0 = [], scoreA0 = 0, scoreB0 = 0\<rparr>, k)"

text \<open>
  \<^verbatim>\<open>adaptAgentAfterMatch(agent, matches)\<close>. The \<^verbatim>\<open>for\<close> loop sums the rewards of the
  rounds the agent cooperated in and of those it defected in.
\<close>

record tally =
  coopReward :: int
  coopCount :: nat
  defReward :: int
  defCount :: nat

definition tally_round :: "round0 \<Rightarrow> tally \<Rightarrow> tally" where
  "tally_round r t =
     (let rew = payoffFor (me r) (opp r)
      in if me r = C
         then t\<lparr>coopReward := coopReward t + rew, coopCount := Suc (coopCount t)\<rparr>
         else t\<lparr>defReward := defReward t + rew, defCount := Suc (defCount t)\<rparr>)"

definition tally_matches :: "round0 list \<Rightarrow> tally" where
  "tally_matches matches =
     fold tally_round matches \<lparr>coopReward = 0, coopCount = 0, defReward = 0, defCount = 0\<rparr>"

definition adaptAgentAfterMatch :: "policy \<Rightarrow> round0 list \<Rightarrow> rng \<Rightarrow> nat \<Rightarrow> policy \<times> nat" where
  "adaptAgentAfterMatch pol matches rnd k =
     (let t = tally_matches matches;
          avgC = (if coopCount t \<noteq> 0 then real_of_int (coopReward t) / real (coopCount t) else 0);
          avgD = (if defCount t \<noteq> 0 then real_of_int (defReward t) / real (defCount t) else 0);
          lr = 0.06;
          pol1 =
            (if avgC > avgD then
               \<lparr>p_afterC = min 0.98 (p_afterC pol + lr * (avgC - avgD)),
                p_afterD = min 0.98 (p_afterD pol + lr * (avgC - avgD) * 0.6)\<rparr>
             else if avgD > avgC then
               \<lparr>p_afterC = max 0.02 (p_afterC pol - lr * (avgD - avgC)),
                p_afterD = max 0.02 (p_afterD pol - lr * (avgD - avgC) * 0.6)\<rparr>
             else pol)
      in (\<lparr>p_afterC = min 0.99 (max 0.01 (p_afterC pol1 + (rnd k - 0.5) * 0.02)),
           p_afterD = min 0.99 (max 0.01 (p_afterD pol1 + (rnd (Suc k) - 0.5) * 0.02))\<rparr>,
          Suc (Suc k)))"

definition adaptAgent :: "agent0 \<Rightarrow> round0 list \<Rightarrow> rng \<Rightarrow> nat \<Rightarrow> agent0 \<times> nat" where
  "adaptAgent a matches rnd k =
     (case kind a of
        Classic f \<Rightarrow> (a, k)
      | Adaptive pol \<Rightarrow>
          (a\<lparr>kind := Adaptive (fst (adaptAgentAfterMatch pol matches rnd k))\<rparr>,
           snd (adaptAgentAfterMatch pol matches rnd k)))"

text \<open>\<^verbatim>\<open>Math.floor(Math.random() * n)\<close>, read at cursor \<open>k\<close>.\<close>

definition randomIndex :: "rng \<Rightarrow> nat \<Rightarrow> nat \<Rightarrow> nat" where
  "randomIndex rnd k n = nat \<lfloor>rnd k * real n\<rfloor>"

text \<open>
  The pairing of part_000: \<^verbatim>\<open>while (j === i) j = Math.floor(Math.random() * n)\<close>. The
  loop has no bound in the source, so it is a partial function: \<open>None\<close> is a loop that
  never ends.
\<close>

partial_function (option) redraw :: "rng \<Rightarrow> nat \<Rightarrow> nat \<Rightarrow> nat \<Rightarrow> nat \<Rightarrow> (nat \<times> nat) option" where
  "redraw rnd n i j k =
     (if j = i then redraw rnd n i (randomIndex rnd k n) (Suc k) else Some (j, k))"

definition pickPair :: "rng \<Rightarrow> nat \<Rightarrow> nat \<Rightarrow> (nat \<times> nat \<times> nat) option" where
  "pickPair rnd n k =
     (let i = randomIndex rnd k n;
          j = randomIndex rnd (Suc k) n
      in case redraw rnd n i j (Suc (Suc k)) of
           None \<Rightarrow> None
         | Some (j', k') \<Rightarrow> Some (i, j', k'))"

text \<open>
  The callback of \<^verbatim>\<open>setInterval\<close> in \<^verbatim>\<open>startSimulation\<close> of part_000: pick a pair, run
  the match, add the scores, adapt the adaptive agents, write both back. An index outside
  the roster would read \<^verbatim>\<open>undefined\<close> and throw at the first property access; that
  is \<open>None\<close> too (it needs a draw outside \<open>[0, 1)\<close>).
\<close>

definition intervalTick :: "rng \<Rightarrow> agent0 list \<times> nat \<Rightarrow> (agent0 list \<times> nat) option" where
  "intervalTick rnd st =
     (let localAgents = fst st in
      case pickPair rnd (length localAgents) (snd st) of
        None \<Rightarrow> None
      | Some (i, j, k1) \<Rightarrow>
          if \<not> (i < length localAgents \<and> j < length localAgents) then None
          else
          (let A = localAgents ! i;
               B = localAgents ! j;
               res = runIteratedMatch A B rnd k1;
               outcome = fst res;
               A1 = A\<lparr>score0 := score0 A + scoreA0 outcome\<rparr>;
               B1 = B\<lparr>score0 := score0 B + scoreB0 outcome\<rparr>;
               ra = adaptAgent A1 (history0 outcome) rnd (snd res);
               rb = adaptAgent B1 (historyB0 outcome) rnd (snd ra)
           in Some ((localAgents[i := fst ra])[j := fst rb], snd rb)))"

text \<open>\<^verbatim>\<open>agents.map((a) => ({ ...a, score: 0 }))\<close> at the start of a run of part_000.\<close>

definition resetScores :: "agent0 list \<Rightarrow> agent0 list" where
  "resetScores agents0 = map (\<lambda>a. a\<lparr>score0 := 0\<rparr>) agents0"

subsection \<open>part_001 and part_002: strategies\<close>

record round =
  self :: move
  opponent :: move
  payoff :: int

text \<open>
  The six entries of \<^verbatim>\<open>ClassicStrategies\<close>, called after their \<^verbatim>\<open>name\<close> fields (the ids
  repeat those of part_000).
\<close>

datatype classic =
  Always_Cooperate | Always_Defect | Tit_for_Tat | Grim_Trigger | Generous_Tit_for_Tat
  | Random

fun strategy_fn :: "classic \<Rightarrow> round list \<Rightarrow> rng \<Rightarrow> nat \<Rightarrow> move \<times> nat" where
  "strategy_fn Always_Cooperate history rnd k = (C, k)"
| "strategy_fn Always_Defect history rnd k = (D, k)"
| "strategy_fn Tit_for_Tat history rnd k =
     (if length history = 0 then (C, k) else (opponent (last history), k))"
| "strategy_fn Grim_Trigger history rnd k =
     (if list_ex (\<lambda>h. opponent h = D) history then (D, k) else (C, k))"
| "strategy_fn Generous_Tit_for_Tat history rnd k =
     (if length history = 0 then (C, k)
      else
        let lastMove = opponent (last history)
        in if lastMove = C then (C, k)
           else (if rnd k < 0.1 then C else D, Suc k))"
| "strategy_fn Random history rnd k = (if rnd k < 0.5 then C else D, Suc k)"

text \<open>A move as the one-letter string the source stores, and \<^verbatim>\<open>map(h => h.opponent).join("")\<close>.\<close>

fun move_str :: "move \<Rightarrow> string" where
  "move_str C = ''C''"
| "move_str D = ''D''"

definition opponents_joined :: "round list \<Rightarrow> string" where
  "opponents_joined hs = concat (map (\<lambda>h. move_str (opponent h)) hs)"

text \<open>
  The Q-learner. \<^verbatim>\<open>qTable\<close> is an object used as a dictionary from \<^verbatim>\<open>state + "_" + action\<close>
  to a number; \<^verbatim>\<open>this.qTable[key] || 0\<close> reads a missing entry as 0.
\<close>

record q_learner =
  qTable :: "string \<rightharpoonup> real"
  epsilon :: real
  alpha :: real
  gamma :: real

definition qRead :: "(string \<rightharpoonup> real) \<Rightarrow> string \<Rightarrow> real" where
  "qRead tbl key = (case tbl key of None \<Rightarrow> 0 | Some v \<Rightarrow> v)"

definition getState :: "round list \<Rightarrow> string" where
  "getState history =
     (if length history = 0 then ''start''
      else opponents_joined (drop (length history - 3) history))"

definition Q_LEARNER_fn :: "q_learner \<Rightarrow> round list \<Rightarrow> rng \<Rightarrow> nat \<Rightarrow> move \<times> nat" where
  "Q_LEARNER_fn q history rnd k =
     (let state = getState history
      in if rnd k < epsilon q then (if rnd (Suc k) < 0.5 then C else D, Suc (Suc k))
         else
           let qC = qRead (qTable q) (state @ ''_C'');
               qD = qRead (qTable q) (state @ ''_D'')
           in (if qC > qD then C else D, Suc k))"

definition updateQ :: "q_learner \<Rightarrow> string \<Rightarrow> move \<Rightarrow> int \<Rightarrow> string \<Rightarrow> q_learner" where
  "updateQ q state action reward nextState =
     (let current = qRead (qTable q) (state @ ''_'' @ move_str action);
          nextMax = max (qRead (qTable q) (nextState @ ''_C''))
                        (qRead (qTable q) (nextState @ ''_D''))
      in q\<lparr>qTable := (qTable q)(state @ ''_'' @ move_str action \<mapsto>
             current + alpha q * (real_of_int reward + gamma q * nextMax - current))\<rparr>)"

text \<open>The frequency analyser: its only field is \<^verbatim>\<open>cooperationThreshold\<close>.\<close>

definition cooperationRate :: "round list \<Rightarrow> real" where
  "cooperationRate history =
     real (length (filter (\<lambda>h. opponent h = C) history)) / real (length history)"

definition FREQ_ANALYSIS_fn :: "real \<Rightarrow> round list \<Rightarrow> move" where
  "FREQ_ANALYSIS_fn cooperationThreshold history =
     (if length history < 5 then C
      else if cooperationRate history > cooperationThreshold then C else D)"

text \<open>
  The pattern detector. \<^verbatim>\<open>patterns\<close> maps a string of opponent moves to the counts
  \<^verbatim>\<open>{ C: ..., D: ... }\<close> of the moves that followed it, here the pair (count of C, count
  of D). The \<^verbatim>\<open>for\<close> loops run over \<^verbatim>\<open>patternLength = 2 .. min(4, ...)\<close>.
\<close>

type_synonym patterns = "string \<rightharpoonup> nat \<times> nat"

fun pattern_scan :: "patterns \<Rightarrow> round list \<Rightarrow> nat list \<Rightarrow> move" where
  "pattern_scan pats history [] = C"
| "pattern_scan pats history (patternLength # rest) =
     (case pats (opponents_joined (drop (length history - patternLength) history)) of
        Some predictions \<Rightarrow> (if fst predictions > snd predictions then C else D)
      | None \<Rightarrow> pattern_scan pats history rest)"

definition PATTERN_DETECTOR_fn :: "patterns \<Rightarrow> round list \<Rightarrow> move" where
  "PATTERN_DETECTOR_fn pats history =
     (if length history < 4 then C
      else pattern_scan pats history [2 ..< Suc (min 4 (length history))])"

definition record_pattern :: "round list \<Rightarrow> nat \<Rightarrow> patterns \<Rightarrow> patterns" where
  "record_pattern history patternLength pats =
     (let pattern = opponents_joined (butlast (drop (length history - (patternLength + 1)) history));
          nextMove = opponent (last history);
          old = (case pats pattern of None \<Rightarrow> (0, 0) | Some p \<Rightarrow> p)
      in pats(pattern \<mapsto> (if nextMove = C then (Suc (fst old), snd old)
                            else (fst old, Suc (snd old)))))"

definition updatePatterns :: "patterns \<Rightarrow> round list \<Rightarrow> patterns" where
  "updatePatterns pats history =
     (if length history < 3 then pats
      else fold (record_pattern history) [2 ..< Suc (min 4 (length history - 1))] pats)"

text \<open>
  The meta-strategist: four sub-strategies \<^verbatim>\<open>"C"\<close>, \<^verbatim>\<open>"D"\<close>, \<^verbatim>\<open>"TFT"\<close>, \<^verbatim>\<open>"FREQ"\<close>, the
  dictionaries \<^verbatim>\<open>performance\<close> and \<^verbatim>\<open>counts\<close> over them, and \<^verbatim>\<open>currentStrategy\<close>.
\<close>

datatype sub = Sub_C | Sub_D | Sub_TFT | Sub_FREQ

definition strategies :: "sub list" where
  "strategies = [Sub_C, Sub_D, Sub_TFT, Sub_FREQ]"

record meta_strategy =
  performance :: "sub \<Rightarrow> int"
  counts :: "sub \<Rightarrow> nat"
  currentStrategy :: sub

text \<open>The body of the \<^verbatim>\<open>for (let strategy of this.strategies)\<close> loop and the loop itself.\<close>

definition consider_strategy :: "meta_strategy \<Rightarrow> sub \<Rightarrow> sub \<times> real \<Rightarrow> sub \<times> real" where
  "consider_strategy m strategy best =
     (if counts m strategy > 0 then
        (let perf = real_of_int (performance m strategy) / real (counts m strategy)
         in if perf > snd best then (strategy, perf) else best)
      else best)"

definition evaluate_strategies :: "meta_strategy \<Rightarrow> sub" where
  "evaluate_strategies m =
     (let bestStrategy = currentStrategy m;
          bestPerf = (if counts m (currentStrategy m) > 0
                      then real_of_int (performance m (currentStrategy m))
                             / real (counts m (currentStrategy m))
                      else 0)
      in fst (fold (consider_strategy m) strategies (bestStrategy, bestPerf)))"


definition execute_strategy :: "sub \<Rightarrow> round list \<Rightarrow> move" where
  "execute_strategy s history =
     (case s of
        Sub_C \<Rightarrow> C
      | Sub_D \<Rightarrow> D
      | Sub_TFT \<Rightarrow> (if length history = 0 then C else opponent (last history))
      | Sub_FREQ \<Rightarrow>
          (if length history < 5 then C
           else if cooperationRate history > 0.6 then C else D))"

definition META_STRATEGY_fn :: "meta_strategy \<Rightarrow> round list \<Rightarrow> move \<times> meta_strategy" where
  "META_STRATEGY_fn m history =
     (let m1 = (if length history > 10 \<and> length history mod 10 = 0
                then m\<lparr>currentStrategy := evaluate_strategies m\<rparr>
                else m)
      in (execute_strategy (currentStrategy m1) history, m1))"

definition updatePerformance :: "meta_strategy \<Rightarrow> sub \<Rightarrow> int \<Rightarrow> meta_strategy" where
  "updatePerformance m strategy reward =
     m\<lparr>performance := (performance m)(strategy := performance m strategy + reward),
       counts := (counts m)(strategy := Suc (counts m strategy))\<rparr>"






subsection \<open>part_001 and part_002: agents and \<^verbatim>\<open>playGame\<close>\<close>

text \<open>
  A roster entry holds \<^verbatim>\<open>strategy\<close> (the \<^verbatim>\<open>fn\<close> of a classic strategy, or the \<^verbatim>\<open>fn\<close> of a
  learning agent bound to its object) and, for a learning agent, \<^verbatim>\<open>agent\<close>, the object
  with the learned state. \<open>brain\<close> is both: which function runs, and the state that it
  and the update hooks mutate. Each learning object belongs to one roster entry.
\<close>

datatype brain =
  Classical classic
  | Q_LEARNER q_learner
  | FREQ_ANALYSIS real
  | PATTERN_DETECTOR patterns
  | META_STRATEGY meta_strategy

record agent =
  name :: string
  brain :: brain
  score :: int
  history :: "round list"
  myHistory :: "round list"

text \<open>\<^verbatim>\<open>agent.strategy(history, agent.myHistory)\<close>: the move, the brain afterwards, the cursor.\<close>

definition strategy :: "brain \<Rightarrow> round list \<Rightarrow> rng \<Rightarrow> nat \<Rightarrow> move \<times> brain \<times> nat" where
  "strategy b hist rnd k =
     (case b of
        Classical c \<Rightarrow> (fst (strategy_fn c hist rnd k), b, snd (strategy_fn c hist rnd k))
      | Q_LEARNER q \<Rightarrow> (fst (Q_LEARNER_fn q hist rnd k), b, snd (Q_LEARNER_fn q hist rnd k))
      | FREQ_ANALYSIS t \<Rightarrow> (FREQ_ANALYSIS_fn t hist, b, k)
      | PATTERN_DETECTOR p \<Rightarrow> (PATTERN_DETECTOR_fn p hist, b, k)
      | META_STRATEGY m \<Rightarrow>
          (fst (META_STRATEGY_fn m hist), META_STRATEGY (snd (META_STRATEGY_fn m hist)), k))"

text \<open>
  The three update blocks of \<^verbatim>\<open>playGame\<close>, each guarded in the source by
  \<^verbatim>\<open>!agent.isClassic && agent.agent.<hook>\<close>: only the object that has the hook changes.
\<close>

definition learn :: "brain \<Rightarrow> round list \<Rightarrow> move \<Rightarrow> int \<Rightarrow> brain" where
  "learn b hist mv pay =
     (case b of
        Classical c \<Rightarrow> b
      | Q_LEARNER q \<Rightarrow> Q_LEARNER (updateQ q (getState (butlast hist)) mv pay (getState hist))
      | FREQ_ANALYSIS t \<Rightarrow> b
      | PATTERN_DETECTOR p \<Rightarrow> PATTERN_DETECTOR (updatePatterns p hist)
      | META_STRATEGY m \<Rightarrow> META_STRATEGY (updatePerformance m (currentStrategy m) pay))"

record game =
  agentA :: agent
  agentB :: agent
  scoreA :: int
  scoreB :: int
  historyA :: "round list"
  historyB :: "round list"
  cursor :: nat

text \<open>One pass of the body of the \<^verbatim>\<open>for\<close> loop of \<^verbatim>\<open>playGame\<close>.\<close>

definition play_round :: "rng \<Rightarrow> game \<Rightarrow> game" where
  "play_round rnd g =
     (let ra = strategy (brain (agentA g)) (historyA g) rnd (cursor g);
          moveA = fst ra;
          rb = strategy (brain (agentB g)) (historyB g) rnd (snd (snd ra));
          moveB = fst rb;
          payoffA = fst (playGame_payoffs moveA moveB);
          payoffB = snd (playGame_payoffs moveA moveB);
          recA = \<lparr>self = moveA, opponent = moveB, payoff = payoffA\<rparr>;
          recB = \<lparr>self = moveB, opponent = moveA, payoff = payoffB\<rparr>;
          hA = historyA g @ [recA];
          hB = historyB g @ [recB]
      in \<lparr>agentA = (agentA g)\<lparr>brain := learn (fst (snd ra)) hA moveA payoffA,
                               myHistory := myHistory (agentA g) @ [recA]\<rparr>,
          agentB = (agentB g)\<lparr>brain := learn (fst (snd rb)) hB moveB payoffB,
                               myHistory := myHistory (agentB g) @ [recB]\<rparr>,
          scoreA = scoreA g + payoffA,
          scoreB = scoreB g + payoffB,
          historyA = hA,
          historyB = hB,
          cursor = snd (snd rb)\<rparr>)"

primrec play_rounds :: "nat \<Rightarrow> rng \<Rightarrow> game \<Rightarrow> game" where
  "play_rounds 0 rnd g = g"
| "play_rounds (Suc n) rnd g = play_rounds n rnd (play_round rnd g)"

definition playGame :: "agent \<Rightarrow> agent \<Rightarrow> rng \<Rightarrow> nat \<Rightarrow> game" where
  "playGame a b rnd k =
     play_rounds ITERATED_LENGTH rnd
       \<lparr>agentA = a, agentB = b, scoreA = 0, scoreB = 0, historyA = [], historyB = [],
        cursor = k\<rparr>"

subsection \<open>part_001 and part_002: the scheduler\<close>

text \<open>
  \<^verbatim>\<open>while (indices.length < 2) { idx = ...; if (!indices.includes(idx)) indices.push(idx) }\<close>:
  unbounded in the source, so a partial function again.
\<close>

partial_function (option) pickIndices :: "rng \<Rightarrow> nat \<Rightarrow> nat list \<Rightarrow> nat \<Rightarrow> (nat list \<times> nat) option" where
  "pickIndices rnd n indices k =
     (if length indices < 2 then
        (let idx = randomIndex rnd k n
         in pickIndices rnd n (if idx \<notin> set indices then indices @ [idx] else indices)
              (Suc k))
      else Some (indices, k))"

text \<open>
  The state of a run: the roster, \<^verbatim>\<open>running\<close>, the local counter \<^verbatim>\<open>currentTick\<close>, the
  displayed \<^verbatim>\<open>tick\<close>, the cursor of the random source, and \<open>matches\<close>, which counts the
  calls of \<^verbatim>\<open>playGame\<close> since the run started (not a variable of the source).
\<close>

record sim =
  agents :: "agent list"
  running :: bool
  currentTick :: nat
  tick :: nat
  rcursor :: nat
  matches :: nat

text \<open>
  The updater given to \<^verbatim>\<open>setAgents\<close>: nothing with fewer than two agents; else two
  distinct indices, one game, scores and histories written to copies of the two entries.
  It returns the new roster, the cursor, and whether a game was played.
\<close>

definition matchUpdate :: "rng \<Rightarrow> agent list \<Rightarrow> nat \<Rightarrow> (agent list \<times> nat \<times> bool) option" where
  "matchUpdate rnd currentAgents k =
     (if length currentAgents < 2 then Some (currentAgents, k, False)
      else
        case pickIndices rnd (length currentAgents) [] k of
          None \<Rightarrow> None
        | Some (indices, k1) \<Rightarrow>
            (let idxA = indices ! 0;
                 idxB = indices ! 1
             in if \<not> (idxA < length currentAgents \<and> idxB < length currentAgents) then None
                else
                  let result = playGame (currentAgents ! idxA) (currentAgents ! idxB) rnd k1;
                      a1 = (agentA result)\<lparr>score := score (agentA result) + scoreA result,
                                            history := historyA result\<rparr>;
                      b1 = (agentB result)\<lparr>score := score (agentB result) + scoreB result,
                                            history := historyB result\<rparr>
                  in Some ((currentAgents[idxA := a1])[idxB := b1], cursor result, True)))"

text \<open>
  \<^verbatim>\<open>runOneMatch\<close> (part_002; the \<^verbatim>\<open>setInterval\<close> callback of part_001 has the same body):
  the update, then \<^verbatim>\<open>setTick(currentTick); currentTick++; if (currentTick > 500) ...\<close>.
\<close>

definition runOneMatch :: "rng \<Rightarrow> sim \<Rightarrow> sim option" where
  "runOneMatch rnd s =
     (case matchUpdate rnd (agents s) (rcursor s) of
        None \<Rightarrow> None
      | Some (newAgents, k, played) \<Rightarrow>
          Some (s\<lparr>agents := newAgents,
                  rcursor := k,
                  matches := (if played then Suc (matches s) else matches s),
                  tick := currentTick s,
                  currentTick := Suc (currentTick s),
                  running := (if Suc (currentTick s) > 500 then False else running s)\<rparr>))"

text \<open>
  The timer: \<open>n\<close> firings. part_001 clears the interval when it stops, part_002 tests
  \<^verbatim>\<open>runningRef.current\<close> before every call of \<^verbatim>\<open>runOneMatch\<close>; either way a firing does
  nothing once \<^verbatim>\<open>running\<close> is false.
\<close>

fun firings :: "nat \<Rightarrow> rng \<Rightarrow> sim \<Rightarrow> sim option" where
  "firings 0 rnd s = Some s"
| "firings (Suc n) rnd s =
     (if running s then
        (case runOneMatch rnd s of None \<Rightarrow> None | Some s1 \<Rightarrow> firings n rnd s1)
      else firings n rnd s)"

text \<open>
  \<^verbatim>\<open>startSimulation\<close> up to the start of the timer: nothing when a run is on; else the
  flags, the reset of score and histories of every agent, and a fresh \<^verbatim>\<open>currentTick\<close>.
\<close>

definition resetAgents :: "agent list \<Rightarrow> agent list" where
  "resetAgents prev = map (\<lambda>a. a\<lparr>score := 0, history := [], myHistory := []\<rparr>) prev"

definition startSimulation :: "sim \<Rightarrow> sim" where
  "startSimulation s =
     (if running s then s
      else s\<lparr>running := True, tick := 0, agents := resetAgents (agents s),
             currentTick := 0, matches := 0\<rparr>)"

subsection \<open>The random source\<close>

text \<open>
  What the proofs of termination ask of the draws. \<^verbatim>\<open>Math.random()\<close> returns a number in
  \<open>[0, 1)\<close>; and a redraw loop ends only if the source does not give the same index for
  ever: after every draw there is a later one that gives another index.
\<close>

definition unit_draws :: "rng \<Rightarrow> bool" where
  "unit_draws rnd = (\<forall>m. 0 \<le> rnd m \<and> rnd m < 1)"

definition fair_draws :: "rng \<Rightarrow> nat \<Rightarrow> bool" where
  "fair_draws rnd n = (\<forall>k. \<exists>m. k < m \<and> randomIndex rnd m n \<noteq> randomIndex rnd k n)"

section \<open>Properties\<close>

text \<open>
  Claim C1. The payoff rule is the fixed matrix with R = 3, T = 5, P = 1, S = 0:
  mutual cooperation pays R, a lone cooperator gets S, a lone defector gets T, mutual
  defection pays P, so the two payoffs of an asymmetric round add up to S + T. The same
  holds for the inline computation of \<^verbatim>\<open>playGame\<close>.
\<close>

theorem payoff_matrix:
  "PD_R = 3 \<and> PD_T = 5 \<and> PD_P = 1 \<and> PD_S = 0
   \<and> payoffFor C C = PD_R \<and> payoffFor C D = PD_S
   \<and> payoffFor D C = PD_T \<and> payoffFor D D = PD_P
   \<and> payoffFor C D + payoffFor D C = PD_S + PD_T
   \<and> playGame_payoffs C C = (PD_R, PD_R) \<and> playGame_payoffs C D = (PD_S, PD_T)
   \<and> playGame_payoffs D C = (PD_T, PD_S) \<and> playGame_payoffs D D = (PD_P, PD_P)
   \<and> playGame_payoffs a b = (payoffFor a b, payoffFor b a)"
  by (cases a; cases b)
     (simp_all add: payoffFor_def playGame_payoffs_def PD_R_def PD_T_def PD_P_def PD_S_def)

subsection \<open>Matches between fixed strategies\<close>

lemma coop_defect_round:
  assumes "kind A = Classic C_ALWAYS" "kind B = Classic D_ALWAYS"
  shows "match_round A B rnd (m, k) =
     (\<lparr>history0 = history0 m @ [\<lparr>me = C, opp = D\<rparr>],
       historyB0 = historyB0 m @ [\<lparr>me = D, opp = C\<rparr>],
       scoreA0 = scoreA0 m, scoreB0 = scoreB0 m + 5\<rparr>, k)"
  using assms
  by (simp add: match_round_def decideMove_def payoffFor_def PD_S_def PD_T_def)

lemma coop_defect_loop:
  assumes "kind A = Classic C_ALWAYS" "kind B = Classic D_ALWAYS"
  shows "match_loop n A B rnd (m, k) =
     (\<lparr>history0 = history0 m @ replicate n \<lparr>me = C, opp = D\<rparr>,
       historyB0 = historyB0 m @ replicate n \<lparr>me = D, opp = C\<rparr>,
       scoreA0 = scoreA0 m, scoreB0 = scoreB0 m + 5 * int n\<rparr>, k)"
proof (induction n arbitrary: m)
  case 0
  then show ?case by simp
next
  case (Suc n)
  show ?case
    unfolding match_loop.simps coop_defect_round [OF assms] Suc.IH
    by (simp add: replicate_append_same algebra_simps)
qed

lemma coop_defect_play_round:
  assumes "brain (agentA g) = Classical Always_Cooperate"
    and "brain (agentB g) = Classical Always_Defect"
  shows "brain (agentA (play_round rnd g)) = Classical Always_Cooperate"
    and "brain (agentB (play_round rnd g)) = Classical Always_Defect"
    and "scoreA (play_round rnd g) = scoreA g"
    and "scoreB (play_round rnd g) = scoreB g + 5"
    and "historyA (play_round rnd g) = historyA g @ [\<lparr>self = C, opponent = D, payoff = 0\<rparr>]"
    and "historyB (play_round rnd g) = historyB g @ [\<lparr>self = D, opponent = C, payoff = 5\<rparr>]"
    and "cursor (play_round rnd g) = cursor g"
  using assms
  by (simp_all add: play_round_def strategy_def learn_def playGame_payoffs_def
      PD_S_def PD_T_def Let_def)

lemma coop_defect_play_rounds:
  assumes "brain (agentA g) = Classical Always_Cooperate"
    and "brain (agentB g) = Classical Always_Defect"
  shows "scoreA (play_rounds n rnd g) = scoreA g
    \<and> scoreB (play_rounds n rnd g) = scoreB g + 5 * int n
    \<and> historyA (play_rounds n rnd g)
        = historyA g @ replicate n \<lparr>self = C, opponent = D, payoff = 0\<rparr>
    \<and> historyB (play_rounds n rnd g)
        = historyB g @ replicate n \<lparr>self = D, opponent = C, payoff = 5\<rparr>
    \<and> cursor (play_rounds n rnd g) = cursor g"
  using assms
proof (induction n arbitrary: g)
  case 0
  then show ?case by simp
next
  case (Suc n)
  note r = coop_defect_play_round [OF Suc.prems, of rnd]
  show ?case
    unfolding play_rounds.simps
    using Suc.IH [OF r(1) r(2)]
    by (simp add: r replicate_append_same algebra_simps)
qed

text \<open>
  Claim C2. A match of 20 rounds between Always Cooperate (side A) and Always Defect
  (side B) ends with scoreA = 0 and scoreB = 100, and A's history is twenty records with
  own move C and opponent's move D, each worth payoff 0. Both match runners do so:
  \<^verbatim>\<open>runIteratedMatch\<close> of part_000, whose records carry no payoff field (the payoff of a
  record is \<^verbatim>\<open>payoffFor(me, opp)\<close>), and \<^verbatim>\<open>playGame\<close> of part_001 and part_002, whatever
  the names, earlier scores and earlier histories of the two agents and whatever the
  random source.
\<close>

theorem cooperate_vs_defect:
  "runIteratedMatch \<lparr>name0 = na, kind = Classic C_ALWAYS, score0 = sa\<rparr>
       \<lparr>name0 = nb, kind = Classic D_ALWAYS, score0 = sb\<rparr> rnd k =
     (\<lparr>history0 = replicate 20 \<lparr>me = C, opp = D\<rparr>,
       historyB0 = replicate 20 \<lparr>me = D, opp = C\<rparr>,
       scoreA0 = 0, scoreB0 = 100\<rparr>, k)
   \<and> payoffFor C D = 0
   \<and> scoreA (playGame \<lparr>name = na', brain = Classical Always_Cooperate, score = sa',
                        history = ha, myHistory = ma\<rparr>
                \<lparr>name = nb', brain = Classical Always_Defect, score = sb',
                        history = hb, myHistory = mb\<rparr> rnd k) = 0
   \<and> scoreB (playGame \<lparr>name = na', brain = Classical Always_Cooperate, score = sa',
                        history = ha, myHistory = ma\<rparr>
                \<lparr>name = nb', brain = Classical Always_Defect, score = sb',
                        history = hb, myHistory = mb\<rparr> rnd k) = 100
   \<and> historyA (playGame \<lparr>name = na', brain = Classical Always_Cooperate, score = sa',
                        history = ha, myHistory = ma\<rparr>
                \<lparr>name = nb', brain = Classical Always_Defect, score = sb',
                        history = hb, myHistory = mb\<rparr> rnd k)
       = replicate 20 \<lparr>self = C, opponent = D, payoff = 0\<rparr>"
  unfolding runIteratedMatch_def playGame_def ITERATED_LENGTH_def
  by (simp add: coop_defect_loop coop_defect_play_rounds payoffFor_def PD_S_def)

lemma pavlov_replicate:
  "classic_fn PAVLOV (replicate j \<lparr>me = C, opp = C\<rparr>) rnd k = (C, k)"
  by (cases j) (simp_all add: payoffFor_def PD_R_def Let_def)

lemma pavlov_round:
  assumes "kind A = Classic PAVLOV" "kind B = Classic PAVLOV"
    and "history0 m = replicate j \<lparr>me = C, opp = C\<rparr>"
    and "historyB0 m = replicate j \<lparr>me = C, opp = C\<rparr>"
  shows "match_round A B rnd (m, k) =
     (\<lparr>history0 = replicate (Suc j) \<lparr>me = C, opp = C\<rparr>,
       historyB0 = replicate (Suc j) \<lparr>me = C, opp = C\<rparr>,
       scoreA0 = scoreA0 m + 3, scoreB0 = scoreB0 m + 3\<rparr>, k)"
  using assms
  by (simp add: match_round_def decideMove_def pavlov_replicate payoffFor_def PD_R_def
      replicate_append_same del: classic_fn.simps)

lemma pavlov_loop:
  assumes "kind A = Classic PAVLOV" "kind B = Classic PAVLOV"
  shows "history0 m = replicate j \<lparr>me = C, opp = C\<rparr> \<Longrightarrow>
     historyB0 m = replicate j \<lparr>me = C, opp = C\<rparr> \<Longrightarrow>
     match_loop n A B rnd (m, k) =
     (\<lparr>history0 = replicate (j + n) \<lparr>me = C, opp = C\<rparr>,
       historyB0 = replicate (j + n) \<lparr>me = C, opp = C\<rparr>,
       scoreA0 = scoreA0 m + 3 * int n, scoreB0 = scoreB0 m + 3 * int n\<rparr>, k)"
proof (induction n arbitrary: m j)
  case 0
  then show ?case by simp
next
  case (Suc n)
  have step: "match_round A B rnd (m, k) =
     (\<lparr>history0 = replicate (Suc j) \<lparr>me = C, opp = C\<rparr>,
       historyB0 = replicate (Suc j) \<lparr>me = C, opp = C\<rparr>,
       scoreA0 = scoreA0 m + 3, scoreB0 = scoreB0 m + 3\<rparr>, k)"
    using assms Suc.prems by (rule pavlov_round)
  show ?case
    unfolding match_loop.simps step
    by (subst Suc.IH [where j = "Suc j"]) (simp_all add: algebra_simps)
qed

text \<open>
  Claim C5. In a match of 20 rounds of Pavlov against Pavlov both sides cooperate in every
  round: round 0 is C, and a record (C, C) pays R, a good outcome, so C is repeated. Both
  final scores are 20 times R, that is 60.
\<close>

theorem pavlov_vs_pavlov:
  "runIteratedMatch \<lparr>name0 = na, kind = Classic PAVLOV, score0 = sa\<rparr>
       \<lparr>name0 = nb, kind = Classic PAVLOV, score0 = sb\<rparr> rnd k =
     (\<lparr>history0 = replicate 20 \<lparr>me = C, opp = C\<rparr>,
       historyB0 = replicate 20 \<lparr>me = C, opp = C\<rparr>,
       scoreA0 = 20 * PD_R, scoreB0 = 20 * PD_R\<rparr>, k)
   \<and> 20 * PD_R = 60"
  unfolding runIteratedMatch_def ITERATED_LENGTH_def
  by (subst pavlov_loop [where j = 0]) (simp_all add: PD_R_def)

subsection \<open>The adaptive agents of part_000\<close>

text \<open>
  Claim C3 (the code departs from it). The claim: an adaptive agent asked for a move
  samples with \<^verbatim>\<open>p_afterC\<close> when no round has been played, and else with the probability
  keyed by the opponent's move of the round before. \<^verbatim>\<open>adaptiveDecision\<close> does that for the
  history it is given, but \<^verbatim>\<open>decideMove\<close> gives it the opponent's history, whose
  \<^verbatim>\<open>opp\<close> field is the agent's own move. With policy (0.9, 0.1), every draw 0.5, after
  a round in which the agent cooperated and the opponent defected: the runner's call
  answers C (probability 0.9, keyed by the agent's own C), the same function on the
  agent's own history answers D (probability 0.1, keyed by the opponent's D). The third
  part runs the first two rounds of a match against Always Defect from the start.
\<close>

theorem adaptive_keyed_on_own_move:
  "decideMove \<lparr>name0 = na, kind = Adaptive \<lparr>p_afterC = 0.9, p_afterD = 0.1\<rparr>, score0 = sa\<rparr>
       [\<lparr>me = C, opp = D\<rparr>] [\<lparr>me = D, opp = C\<rparr>] (\<lambda>i. 0.5) 1 = (C, 2)
   \<and> adaptiveDecision \<lparr>p_afterC = 0.9, p_afterD = 0.1\<rparr> [\<lparr>me = C, opp = D\<rparr>] (\<lambda>i. 0.5) 1
       = (D, 2)
   \<and> history0 (fst (match_loop 2
         \<lparr>name0 = na, kind = Adaptive \<lparr>p_afterC = 0.9, p_afterD = 0.1\<rparr>, score0 = sa\<rparr>
         \<lparr>name0 = nb, kind = Classic D_ALWAYS, score0 = sb\<rparr> (\<lambda>i. 0.5)
         (\<lparr>history0 = [], historyB0 = [], scoreA0 = 0, scoreB0 = 0\<rparr>, 0)))
       = [\<lparr>me = C, opp = D\<rparr>, \<lparr>me = C, opp = D\<rparr>]"
  by (simp add: decideMove_def adaptiveDecision_def match_round_def numeral_2_eq_2)

lemma clamp_bounds:
  fixes x :: real
  shows "0.01 \<le> min 0.99 (max 0.01 x)" "min 0.99 (max 0.01 x) \<le> 0.99"
  by simp_all

text \<open>
  Claim C6. After one post-match update (nudge, clamp, jitter, clamp) both policy
  probabilities lie in [0.01, 0.99]. The last step of the update clamps both, so this
  holds for every policy before the update, in particular for one whose probabilities
  lay in the interval: the interval is an invariant of the update. (Numbers are reals
  here; the clamp is comparisons only.)
\<close>

theorem adapt_keeps_interval:
  "0.01 \<le> p_afterC (fst (adaptAgentAfterMatch pol ms rnd k))
   \<and> p_afterC (fst (adaptAgentAfterMatch pol ms rnd k)) \<le> 0.99
   \<and> 0.01 \<le> p_afterD (fst (adaptAgentAfterMatch pol ms rnd k))
   \<and> p_afterD (fst (adaptAgentAfterMatch pol ms rnd k)) \<le> 0.99"
  unfolding adaptAgentAfterMatch_def Let_def fst_conv policy.select_convs
  by (intro conjI clamp_bounds)

subsection \<open>Reset\<close>

text \<open>
  Claim C8. The reset done when a run starts sets the score of every agent of the roster
  to 0, whatever the agent's strategy and earlier score: the list of scores after the
  reset is as many zeros as there are agents. Strategies and learned state stay.
\<close>

theorem reset_zeroes_scores:
  "map score0 (resetScores agents0) = replicate (length agents0) 0
   \<and> map kind (resetScores agents0) = map kind agents0
   \<and> map score (resetAgents prev) = replicate (length prev) 0
   \<and> map brain (resetAgents prev) = map brain prev
   \<and> map score (agents (startSimulation (s\<lparr>running := False\<rparr>)))
       = replicate (length (agents s)) 0"
  by (simp add: resetScores_def resetAgents_def startSimulation_def comp_def
      map_replicate_const)

subsection \<open>The learning agents of part_001 and part_002\<close>

text \<open>
  Claim C9. When the Q-learner does not explore (the draw is not below epsilon), its move
  is C exactly when the stored value for (state, C) is strictly above the one for
  (state, D), a missing entry being read as 0; so it is D on every tie, and D on a state
  never seen, where both values are 0.
\<close>

theorem q_learner_exploit:
  assumes "\<not> rnd k < epsilon q"
  shows "(fst (Q_LEARNER_fn q hist rnd k) = C)
           = (qRead (qTable q) (getState hist @ ''_D'') < qRead (qTable q) (getState hist @ ''_C''))
    \<and> (fst (Q_LEARNER_fn q hist rnd k) = D)
           = (qRead (qTable q) (getState hist @ ''_C'') \<le> qRead (qTable q) (getState hist @ ''_D''))
    \<and> fst (Q_LEARNER_fn (q\<lparr>qTable := Map.empty\<rparr>) hist rnd k) = D
    \<and> qRead (tbl(key := None)) key = 0"
  using assms by (auto simp add: Q_LEARNER_fn_def Let_def qRead_def)

theorem q_learner_exploit_witness:
  "\<not> (\<lambda>i. 1 / 2) (0::nat) < epsilon \<lparr>qTable = [''start_C'' \<mapsto> 1, ''start_D'' \<mapsto> 1],
        epsilon = 0.1, alpha = 0.1, gamma = 0.9\<rparr>
   \<and> fst (Q_LEARNER_fn \<lparr>qTable = [''start_C'' \<mapsto> 1, ''start_D'' \<mapsto> 1],
        epsilon = 0.1, alpha = 0.1, gamma = 0.9\<rparr> [] (\<lambda>i. 1 / 2) 0) = D
   \<and> fst (Q_LEARNER_fn \<lparr>qTable = [''start_C'' \<mapsto> 2, ''start_D'' \<mapsto> 1],
        epsilon = 0.1, alpha = 0.1, gamma = 0.9\<rparr> [] (\<lambda>i. 1 / 2) 0) = C"
  using q_learner_exploit [of "\<lambda>i. 1 / 2" 0 "\<lparr>qTable = [''start_C'' \<mapsto> 1, ''start_D'' \<mapsto> 1],
        epsilon = 0.1, alpha = 0.1, gamma = 0.9\<rparr>" "[]"]
    q_learner_exploit [of "\<lambda>i. 1 / 2" 0 "\<lparr>qTable = [''start_C'' \<mapsto> 2, ''start_D'' \<mapsto> 1],
        epsilon = 0.1, alpha = 0.1, gamma = 0.9\<rparr>" "[]"]
  by (simp add: getState_def qRead_def)









lemma META_STRATEGY_fn_switch:
  "currentStrategy (snd (META_STRATEGY_fn m hist)) =
     (if length hist > 10 \<and> length hist mod 10 = 0 then evaluate_strategies m
      else currentStrategy m)"
  by (simp add: META_STRATEGY_fn_def Let_def)

lemma meta_no_switch_below_20:
  "length hist < 20 \<Longrightarrow> snd (META_STRATEGY_fn m hist) = m"
  by (simp add: META_STRATEGY_fn_def Let_def) presburger






text \<open>
  Outside the reachable states the source's guard, \<^verbatim>\<open>history.length > 10\<close>, shows: with
  records for Defect (average 5) beside the current Tit-for-Tat (average 1), round 10 is
  not evaluated and round 20 is. No run produces such a state.
\<close>

lemma guard_skips_round_10_off_reachable:
  "evaluate_strategies \<lparr>performance = (\<lambda>s. 0)(Sub_D := 50, Sub_TFT := 10),
        counts = (\<lambda>s. 0)(Sub_D := 10, Sub_TFT := 10), currentStrategy = Sub_TFT\<rparr> = Sub_D
   \<and> currentStrategy (snd (META_STRATEGY_fn
        \<lparr>performance = (\<lambda>s. 0)(Sub_D := 50, Sub_TFT := 10),
         counts = (\<lambda>s. 0)(Sub_D := 10, Sub_TFT := 10), currentStrategy = Sub_TFT\<rparr>
        (replicate 10 \<lparr>self = D, opponent = D, payoff = 1\<rparr>))) = Sub_TFT
   \<and> currentStrategy (snd (META_STRATEGY_fn
        \<lparr>performance = (\<lambda>s. 0)(Sub_D := 50, Sub_TFT := 10),
         counts = (\<lambda>s. 0)(Sub_D := 10, Sub_TFT := 10), currentStrategy = Sub_TFT\<rparr>
        (replicate 20 \<lparr>self = D, opponent = D, payoff = 1\<rparr>))) = Sub_D"
  by (simp add: META_STRATEGY_fn_def evaluate_strategies_def consider_strategy_def
      strategies_def Let_def)



subsection \<open>The scheduler\<close>

lemma redraw_sound: "redraw rnd n i j k = Some r \<Longrightarrow> fst r \<noteq> i"
  apply (rule redraw.raw_induct [where P = "\<lambda>rnd n i j k r. fst r \<noteq> i"
        and rnd = rnd and n = n and i = i and j = j and k = k])
  subgoal for f rnd n i j k r by (auto split: if_splits)
  by assumption

lemma pickIndices_sound:
  "pickIndices rnd n ids k = Some r \<Longrightarrow>
     length ids \<le> 2 \<and> distinct ids \<longrightarrow> length (fst r) = 2 \<and> distinct (fst r)"
  apply (rule pickIndices.raw_induct [where P = "\<lambda>rnd n ids k r.
        length ids \<le> 2 \<and> distinct ids \<longrightarrow> length (fst r) = 2 \<and> distinct (fst r)"
        and rnd = rnd and n = n and indices = ids and k = k])
  subgoal for f rnd n ids k r
    by (cases "length ids < 2") (auto simp: Let_def split: if_splits)
  by assumption

lemma distinct_pair: "length xs = 2 \<Longrightarrow> distinct xs \<Longrightarrow> xs ! 0 \<noteq> xs ! 1"
  by (cases xs; cases "tl xs") auto

lemma redraw_terminates:
  "randomIndex rnd m n \<noteq> i \<Longrightarrow> k \<le> m \<Longrightarrow> \<exists>j' k'. redraw rnd n i j k = Some (j', k')"
proof (induction "m - k" arbitrary: k j)
  case 0
  then have km: "k = m" by simp
  show ?case
  proof (cases "j = i")
    case True
    then show ?thesis
      using 0 km by (subst redraw.simps, subst redraw.simps) simp
  next
    case False
    then show ?thesis by (subst redraw.simps) simp
  qed
next
  case (Suc d)
  show ?case
  proof (cases "j = i")
    case True
    have "\<exists>j' k'. redraw rnd n i (randomIndex rnd k n) (Suc k) = Some (j', k')"
      using Suc by (intro Suc.hyps(1)) auto
    then show ?thesis using True by (subst redraw.simps) simp
  next
    case False
    then show ?thesis by (subst redraw.simps) simp
  qed
qed

lemma pick_second_terminates:
  "randomIndex rnd m n \<noteq> a \<Longrightarrow> k \<le> m \<Longrightarrow>
     \<exists>b k'. pickIndices rnd n [a] k = Some ([a, b], k') \<and> k < k' \<and> b = randomIndex rnd (k' - 1) n"
proof (induction "m - k" arbitrary: k)
  case 0
  then have km: "k = m" by simp
  show ?case
    using 0 km by (subst pickIndices.simps, subst pickIndices.simps) (simp add: Let_def)
next
  case (Suc d)
  show ?case
  proof (cases "randomIndex rnd k n = a")
    case True
    have "\<exists>b k'. pickIndices rnd n [a] (Suc k) = Some ([a, b], k') \<and> Suc k < k'
        \<and> b = randomIndex rnd (k' - 1) n"
      using Suc by (intro Suc.hyps(1)) auto
    then show ?thesis using True by (subst pickIndices.simps) (auto simp add: Let_def)
  next
    case False
    then show ?thesis
      by (subst pickIndices.simps, subst pickIndices.simps) (simp add: Let_def)
  qed
qed

lemma pickIndices_first:
  "pickIndices rnd n [] k = pickIndices rnd n [randomIndex rnd k n] (Suc k)"
  by (subst pickIndices.simps) (simp add: Let_def)

lemma pickIndices_terminates:
  assumes "fair_draws rnd n"
  shows "\<exists>b k'. pickIndices rnd n [] k = Some ([randomIndex rnd k n, b], k')
           \<and> b = randomIndex rnd (k' - 1) n"
proof -
  from assms obtain m where m: "k < m" "randomIndex rnd m n \<noteq> randomIndex rnd k n"
    unfolding fair_draws_def by blast
  then have "Suc k \<le> m" by simp
  from pick_second_terminates [OF m(2) this] show ?thesis
    unfolding pickIndices_first by blast
qed

lemma pickPair_terminates:
  assumes "fair_draws rnd n"
  shows "\<exists>j k'. pickPair rnd n k = Some (randomIndex rnd k n, j, k')"
proof -
  from assms obtain m where m: "k < m" "randomIndex rnd m n \<noteq> randomIndex rnd k n"
    unfolding fair_draws_def by blast
  show ?thesis
  proof (cases "m = Suc k")
    case True
    with m(2) show ?thesis
      unfolding pickPair_def Let_def by (subst redraw.simps) simp
  next
    case False
    with m(1) have "Suc (Suc k) \<le> m" by simp
    from redraw_terminates [OF m(2) this, of "randomIndex rnd (Suc k) n"]
    show ?thesis unfolding pickPair_def Let_def by auto
  qed
qed

text \<open>
  Claim C7. The two indices a scheduler tick selects for a match are distinct, whatever
  the draws: the pairing of part_000 redraws the second index while it equals the first,
  the pairing of part_001 and part_002 pushes an index only if the list does not have it.
  Whenever a pairing returns, its two indices differ; and it does return when the source
  is fair (after every draw a later draw gives another index).
\<close>

theorem selected_indices_distinct:
  "(pickPair rnd n k = Some (i, j, k') \<longrightarrow> i \<noteq> j)
   \<and> (pickIndices rnd n [] k = Some (indices, k'') \<longrightarrow>
        length indices = 2 \<and> indices ! 0 \<noteq> indices ! 1)
   \<and> (fair_draws rnd n \<longrightarrow> pickPair rnd n k \<noteq> None \<and> pickIndices rnd n [] k \<noteq> None)"
proof (intro conjI impI)
  assume "pickPair rnd n k = Some (i, j, k')"
  then have "redraw rnd n i (randomIndex rnd (Suc k) n) (Suc (Suc k)) = Some (j, k')"
    by (auto simp: pickPair_def Let_def split: option.splits)
  from redraw_sound [OF this] show "i \<noteq> j" by simp
next
  assume a: "pickIndices rnd n [] k = Some (indices, k'')"
  from pickIndices_sound [OF a] show "length indices = 2" by simp
  from pickIndices_sound [OF a] have "length indices = 2" "distinct indices" by simp_all
  then show "indices ! 0 \<noteq> indices ! 1" by (rule distinct_pair)
next
  assume f: "fair_draws rnd n"
  from pickPair_terminates [OF f, of k] show "pickPair rnd n k \<noteq> None" by auto
  from pickIndices_terminates [OF f, of k] show "pickIndices rnd n [] k \<noteq> None" by auto
qed

lemma sample_draws_index:
  "randomIndex (\<lambda>m. if m = 0 \<or> odd m then 3 / 10 else 7 / 10) m 10
     = (if m = 0 \<or> odd m then 3 else 7)"
  by (simp add: randomIndex_def)

lemma sample_draws_fair:
  "fair_draws (\<lambda>m. if m = 0 \<or> odd m then 3 / 10 else 7 / 10) 10"
  unfolding fair_draws_def sample_draws_index
proof
  fix k :: nat
  show "\<exists>m>k. (if m = 0 \<or> odd m then 3 else 7) \<noteq> (if k = 0 \<or> odd k then 3 else (7::nat))"
  proof (cases "k = 0")
    case True
    then show ?thesis by (intro exI [of _ 2]) simp
  next
    case False
    then show ?thesis by (intro exI [of _ "Suc k"]) simp
  qed
qed

theorem selected_indices_distinct_witness:
  "pickPair (\<lambda>m. if m = 0 \<or> odd m then 3 / 10 else 7 / 10) 10 0 = Some (3, 7, 3)
   \<and> (3::nat) \<noteq> 7
   \<and> pickIndices (\<lambda>m. if m = 0 \<or> odd m then 3 / 10 else 7 / 10) 10 [] 0 = Some ([3, 7], 3)
   \<and> length [3, 7 :: nat] = 2 \<and> [3, 7 :: nat] ! 0 \<noteq> [3, 7] ! 1
   \<and> fair_draws (\<lambda>m. if m = 0 \<or> odd m then 3 / 10 else 7 / 10) 10"
proof -
  let ?rnd = "\<lambda>m::nat. if m = 0 \<or> odd m then 3 / 10 else (7 / 10 :: real)"
  have p: "pickPair ?rnd 10 0 = Some (3, 7, 3)"
    by (simp add: pickPair_def Let_def redraw.simps randomIndex_def)
  have q: "pickIndices ?rnd 10 [] 0 = Some ([3, 7], 3)"
    by (simp add: pickIndices.simps Let_def randomIndex_def)
  from selected_indices_distinct [of ?rnd 10 0 3 7 3 "[3, 7]" 3] p q sample_draws_fair
  show ?thesis by simp
qed

lemma randomIndex_less:
  assumes "unit_draws rnd" "0 < n"
  shows "randomIndex rnd m n < n"
proof -
  from assms have "0 \<le> rnd m" "rnd m < 1" by (simp_all add: unit_draws_def)
  with assms(2) have "rnd m * real n < real n" "0 \<le> rnd m * real n" by simp_all
  then have "\<lfloor>rnd m * real n\<rfloor> < int n" "0 \<le> \<lfloor>rnd m * real n\<rfloor>"
    by (simp_all add: floor_less_iff)
  then show ?thesis unfolding randomIndex_def by (simp only: nat_less_iff)
qed

lemma matchUpdate_length:
  "matchUpdate rnd ags k = Some r \<Longrightarrow> length (fst r) = length ags"
  by (auto simp: matchUpdate_def Let_def split: if_splits option.splits prod.splits)

lemma matchUpdate_total:
  assumes "length ags < 2 \<or> (unit_draws rnd \<and> fair_draws rnd (length ags))"
  shows "\<exists>r. matchUpdate rnd ags k = Some r"
proof (cases "length ags < 2")
  case True
  then have "matchUpdate rnd ags k = Some (ags, k, False)" by (simp add: matchUpdate_def)
  then show ?thesis by blast
next
  case False
  with assms have u: "unit_draws rnd" and f: "fair_draws rnd (length ags)" by simp_all
  from False have pos: "0 < length ags" by arith
  from pickIndices_terminates [OF f, of k] obtain b k' where
    p: "pickIndices rnd (length ags) [] k = Some ([randomIndex rnd k (length ags), b], k')"
    and b: "b = randomIndex rnd (k' - 1) (length ags)" by blast
  have "randomIndex rnd k (length ags) < length ags" "b < length ags"
    unfolding b by (rule randomIndex_less [OF u pos])+
  with False p show ?thesis by (auto simp add: matchUpdate_def Let_def)
qed

lemma runOneMatch_step:
  assumes "runOneMatch rnd s = Some s1"
  shows "currentTick s1 = Suc (currentTick s)"
    and "matches s1 \<le> Suc (matches s)"
    and "running s1 = (Suc (currentTick s) \<le> 500 \<and> running s)"
    and "length (agents s1) = length (agents s)"
  using assms matchUpdate_length [of rnd "agents s" "rcursor s"]
  by (auto simp: runOneMatch_def split: option.splits prod.splits if_splits)

lemma runOneMatch_played:
  assumes "runOneMatch rnd s = Some s1" "2 \<le> length (agents s)"
  shows "matches s1 = Suc (matches s)"
  using assms
  by (auto simp: runOneMatch_def matchUpdate_def Let_def
      split: option.splits prod.splits if_splits)

lemma runOneMatch_total:
  assumes "length (agents s) < 2 \<or> (unit_draws rnd \<and> fair_draws rnd (length (agents s)))"
  shows "\<exists>s1. runOneMatch rnd s = Some s1"
  using matchUpdate_total [OF assms, of "rcursor s"]
  by (auto simp: runOneMatch_def split: option.splits prod.splits)

lemma firings_invariant:
  "firings n rnd s = Some s' \<Longrightarrow> matches s \<le> currentTick s \<Longrightarrow> currentTick s \<le> 501 \<Longrightarrow>
     running s = (currentTick s \<le> 500) \<Longrightarrow>
     matches s' \<le> currentTick s' \<and> currentTick s' = min (currentTick s + n) 501
     \<and> running s' = (currentTick s' \<le> 500)"
proof (induction n arbitrary: s)
  case 0
  then show ?case by simp
next
  case (Suc n)
  show ?case
  proof (cases "running s")
    case True
    with Suc.prems(1) obtain s1 where s1: "runOneMatch rnd s = Some s1"
      and rest: "firings n rnd s1 = Some s'"
      by (auto split: option.splits)
    note st = runOneMatch_step [OF s1]
    from True Suc.prems have le: "currentTick s \<le> 500" by simp
    have "matches s' \<le> currentTick s' \<and> currentTick s' = min (currentTick s1 + n) 501
        \<and> running s' = (currentTick s' \<le> 500)"
      using rest
    proof (rule Suc.IH)
      show "matches s1 \<le> currentTick s1" using st Suc.prems by simp
      show "currentTick s1 \<le> 501" using st le by simp
      show "running s1 = (currentTick s1 \<le> 500)" using st True by simp
    qed
    then show ?thesis using st by simp
  next
    case False
    with Suc.prems have "firings n rnd s = Some s'" by simp
    from Suc.IH [OF this Suc.prems(2-4)] False Suc.prems show ?thesis by auto
  qed
qed

lemma firings_exact:
  "firings n rnd s = Some s' \<Longrightarrow> 2 \<le> length (agents s) \<Longrightarrow> matches s = currentTick s \<Longrightarrow>
     running s = (currentTick s \<le> 500) \<Longrightarrow> matches s' = currentTick s'"
proof (induction n arbitrary: s)
  case 0
  then show ?case by simp
next
  case (Suc n)
  show ?case
  proof (cases "running s")
    case True
    with Suc.prems(1) obtain s1 where s1: "runOneMatch rnd s = Some s1"
      and rest: "firings n rnd s1 = Some s'"
      by (auto split: option.splits)
    note st = runOneMatch_step [OF s1] runOneMatch_played [OF s1 Suc.prems(2)]
    from True Suc.prems have le: "currentTick s \<le> 500" by simp
    show ?thesis
      using rest
    proof (rule Suc.IH)
      show "2 \<le> length (agents s1)" using st Suc.prems by simp
      show "matches s1 = currentTick s1" using st Suc.prems by simp
      show "running s1 = (currentTick s1 \<le> 500)" using st True by simp
    qed
  next
    case False
    with Suc.prems have "firings n rnd s = Some s'" by simp
    from Suc.IH [OF this Suc.prems(2-4)] show ?thesis .
  qed
qed

lemma firings_idle:
  "firings n rnd s = Some s' \<Longrightarrow> length (agents s) < 2 \<Longrightarrow> matches s' = matches s"
proof (induction n arbitrary: s)
  case 0
  then show ?case by simp
next
  case (Suc n)
  show ?case
  proof (cases "running s")
    case True
    with Suc.prems(1) obtain s1 where s1: "runOneMatch rnd s = Some s1"
      and rest: "firings n rnd s1 = Some s'"
      by (auto split: option.splits)
    from s1 Suc.prems(2) have "matches s1 = matches s"
      by (auto simp: runOneMatch_def matchUpdate_def split: option.splits prod.splits)
    moreover from runOneMatch_step(4) [OF s1] Suc.prems(2) have "length (agents s1) < 2"
      by simp
    ultimately show ?thesis using Suc.IH [OF rest] by simp
  next
    case False
    with Suc.prems have "firings n rnd s = Some s'" by simp
    from Suc.IH [OF this Suc.prems(2)] show ?thesis .
  qed
qed

lemma firings_total:
  "length (agents s) < 2 \<or> (unit_draws rnd \<and> fair_draws rnd (length (agents s))) \<Longrightarrow>
     \<exists>s'. firings n rnd s = Some s'"
proof (induction n arbitrary: s)
  case 0
  then show ?case by simp
next
  case (Suc n)
  show ?case
  proof (cases "running s")
    case True
    from runOneMatch_total [OF Suc.prems] obtain s1 where s1: "runOneMatch rnd s = Some s1"
      by blast
    from runOneMatch_step(4) [OF s1] Suc.prems
    have "length (agents s1) < 2 \<or> (unit_draws rnd \<and> fair_draws rnd (length (agents s1)))"
      by simp
    from Suc.IH [OF this] True s1 show ?thesis by simp
  next
    case False
    with Suc.IH [OF Suc.prems] show ?thesis by simp
  qed
qed

text \<open>
  Claim C10. A run stops by itself: the timer's callback counts its calls in
  \<^verbatim>\<open>currentTick\<close> and clears \<^verbatim>\<open>running\<close> once the counter exceeds 500, after which no
  game is played. For a run started by \<^verbatim>\<open>startSimulation\<close> and any number \<open>n\<close> of firings
  of the timer: if the firings return, at most 501 games were played (exactly
  \<open>min n 501\<close> on a roster of two or more agents, none on a smaller one), the counter is
  \<open>min n 501\<close>, and the run is on exactly while \<open>n < 501\<close>. The firings do return when the
  roster has fewer than two agents or the draws lie in \<open>[0, 1)\<close> and are fair.
\<close>

theorem run_stops_after_501_matches:
  assumes "\<not> running s"
  shows "(firings n rnd (startSimulation s) = Some s' \<longrightarrow>
            matches s' \<le> 501 \<and> currentTick s' = min n 501 \<and> running s' = (n < 501)
            \<and> (if 2 \<le> length (agents s) then matches s' = min n 501 else matches s' = 0))
    \<and> (length (agents s) < 2 \<or> (unit_draws rnd \<and> fair_draws rnd (length (agents s))) \<longrightarrow>
            (\<exists>s''. firings n rnd (startSimulation s) = Some s''))"
proof (intro conjI impI)
  assume a: "firings n rnd (startSimulation s) = Some s'"
  have "matches s' \<le> currentTick s'
      \<and> currentTick s' = min (currentTick (startSimulation s) + n) 501
      \<and> running s' = (currentTick s' \<le> 500)"
    using a by (rule firings_invariant) (simp_all add: startSimulation_def assms)
  then have r: "matches s' \<le> currentTick s'" "currentTick s' = min n 501"
      "running s' = (currentTick s' \<le> 500)"
    by (auto simp add: startSimulation_def assms)
  from r show "matches s' \<le> 501" by linarith
  from r show "currentTick s' = min n 501" by simp
  from r show "running s' = (n < 501)" by auto
  show "if 2 \<le> length (agents s) then matches s' = min n 501 else matches s' = 0"
  proof (cases "2 \<le> length (agents s)")
    case True
    have "matches s' = currentTick s'"
      using a by (rule firings_exact) (simp_all add: startSimulation_def resetAgents_def assms True)
    with r True show ?thesis by simp
  next
    case False
    have "matches s' = matches (startSimulation s)"
      using a
    proof (rule firings_idle)
      show "length (agents (startSimulation s)) < 2"
        using False by (simp add: startSimulation_def resetAgents_def assms)
    qed
    with False show ?thesis by (simp add: startSimulation_def assms)
  qed
next
  assume "length (agents s) < 2 \<or> (unit_draws rnd \<and> fair_draws rnd (length (agents s)))"
  then have "length (agents (startSimulation s)) < 2
      \<or> (unit_draws rnd \<and> fair_draws rnd (length (agents (startSimulation s))))"
    by (simp add: startSimulation_def resetAgents_def assms)
  then show "\<exists>s''. firings n rnd (startSimulation s) = Some s''"
    by (rule firings_total)
qed

lemma alternating_index:
  "randomIndex (\<lambda>m. if even m then 0 else 1 / 2) m 2 = (if even m then 0 else 1)"
  by (simp add: randomIndex_def)

lemma alternating_fair: "fair_draws (\<lambda>m. if even m then 0 else 1 / 2) 2"
  unfolding fair_draws_def alternating_index
proof
  fix k :: nat
  show "\<exists>m>k. (if even m then 0 else 1) \<noteq> (if even k then 0 else (1::nat))"
    by (intro exI [of _ "Suc k"]) simp
qed

lemma alternating_unit: "unit_draws (\<lambda>m. if even m then 0 else 1 / 2)"
  by (simp add: unit_draws_def)

theorem run_stops_after_501_matches_witness:
  "\<not> running \<lparr>agents =
        [\<lparr>name = ''Always Cooperate'', brain = Classical Always_Cooperate, score = 12,
          history = [], myHistory = []\<rparr>,
         \<lparr>name = ''Always Defect'', brain = Classical Always_Defect, score = 40,
          history = [], myHistory = []\<rparr>],
      running = False, currentTick = 7, tick = 7, rcursor = 0, matches = 3\<rparr>
   \<and> unit_draws (\<lambda>m. if even m then 0 else 1 / 2)
   \<and> fair_draws (\<lambda>m. if even m then 0 else 1 / 2) 2
   \<and> (\<exists>s'. firings 600 (\<lambda>m. if even m then 0 else 1 / 2)
          (startSimulation \<lparr>agents =
            [\<lparr>name = ''Always Cooperate'', brain = Classical Always_Cooperate, score = 12,
              history = [], myHistory = []\<rparr>,
             \<lparr>name = ''Always Defect'', brain = Classical Always_Defect, score = 40,
              history = [], myHistory = []\<rparr>],
            running = False, currentTick = 7, tick = 7, rcursor = 0, matches = 3\<rparr>) = Some s'
        \<and> matches s' = 501 \<and> currentTick s' = 501 \<and> \<not> running s')"
proof -
  let ?rnd = "\<lambda>m::nat. if even m then 0 else (1 / 2 :: real)"
  let ?s = "\<lparr>agents =
        [\<lparr>name = ''Always Cooperate'', brain = Classical Always_Cooperate, score = 12,
          history = [], myHistory = []\<rparr>,
         \<lparr>name = ''Always Defect'', brain = Classical Always_Defect, score = 40,
          history = [], myHistory = []\<rparr>],
      running = False, currentTick = 7, tick = 7, rcursor = 0, matches = 3\<rparr>"
  have nr: "\<not> running ?s" by simp
  have len: "length (agents ?s) = 2" by simp
  from run_stops_after_501_matches [OF nr, of 600 ?rnd] alternating_unit alternating_fair
  obtain s' where s': "firings 600 ?rnd (startSimulation ?s) = Some s'"
    unfolding len by blast
  from run_stops_after_501_matches [OF nr, of 600 ?rnd s'] s'
  have "matches s' = 501 \<and> currentTick s' = 501 \<and> \<not> running s'"
    unfolding len by simp
  with s' nr alternating_unit alternating_fair show ?thesis by blast
qed

end
